theory Spec2Isabelle
  imports Complex_Main
begin

section \<open>Values\<close>

text \<open>
  The readings are JSON objects decoded by Python. A value is one of Python's JSON
  types. Python integers are unbounded (\<open>int\<close>). A Python float is taken at its exact
  rational value and arithmetic on numbers is exact: the representation error of binary
  floating point is not part of this model. Dictionaries keep their insertion order and
  are association lists.
\<close>

datatype pyval =
    VNone
  | VBool bool
  | VInt int
  | VFloat rat
  | VStr string
  | VList "pyval list"
  | VDict "(string \<times> pyval) list"

type_synonym pydict = "(string \<times> pyval) list"

text \<open>\<^verbatim>\<open>isinstance(value, (int, float))\<close>: \<open>bool\<close> is a subclass of \<open>int\<close> in Python,
  so the test holds for \<open>True\<close> and \<open>False\<close> as well.\<close>

fun isinstance_int_float :: "pyval \<Rightarrow> bool" where
  "isinstance_int_float (VBool b) = True"
| "isinstance_int_float (VInt i) = True"
| "isinstance_int_float (VFloat x) = True"
| "isinstance_int_float v = False"

text \<open>The number a numeric value stands for in arithmetic (\<open>True\<close> is 1, \<open>False\<close> is 0).\<close>

fun num :: "pyval \<Rightarrow> rat" where
  "num (VBool b) = (if b then 1 else 0)"
| "num (VInt i) = of_int i"
| "num (VFloat x) = x"
| "num v = 0"

text \<open>\<^verbatim>\<open>d[k] = v\<close> on a dictionary: an existing key keeps its position, a new key goes last.\<close>

fun dict_set :: "pydict \<Rightarrow> string \<Rightarrow> pyval \<Rightarrow> pydict" where
  "dict_set [] k v = [(k, v)]"
| "dict_set ((k', v') # d) k v = (if k' = k then (k, v) # d else (k', v') # dict_set d k v)"

definition dict_keys :: "pydict \<Rightarrow> string list" where
  "dict_keys d = map fst d"

section \<open>Converter\<close>

text \<open>\<^verbatim>\<open>round(x, ndigits)\<close> on a float: the nearest multiple of \<open>10 ^ -ndigits\<close>, a tie
  going to the even neighbour.\<close>

definition round_half_even :: "rat \<Rightarrow> int" where
  "round_half_even q =
     (let f = \<lfloor>q\<rfloor>; d = q - of_int f
      in if d < 1 / 2 then f
         else if 1 / 2 < d then f + 1
         else if even f then f else f + 1)"

definition py_round :: "rat \<Rightarrow> nat \<Rightarrow> rat" where
  "py_round x ndigits = of_int (round_half_even (x * 10 ^ ndigits)) / 10 ^ ndigits"

definition fahrenheit_to_celsius :: "rat \<Rightarrow> rat" where
  "fahrenheit_to_celsius f = py_round ((f - 32) * 5 / 9) 2"

definition mph_to_kmh :: "rat \<Rightarrow> rat" where
  "mph_to_kmh mph = py_round (mph * (160934 / 100000)) 2"

definition inhg_to_hpa :: "rat \<Rightarrow> rat" where
  "inhg_to_hpa inhg = py_round (inhg * (338639 / 10000)) 2"

definition inches_to_mm :: "rat \<Rightarrow> rat" where
  "inches_to_mm inches = py_round (inches * (254 / 10)) 2"

text \<open>The table \<^verbatim>\<open>FIELD_CONVERSIONS\<close>: original field, metric field name, conversion
  function or \<open>None\<close>.\<close>

definition FIELD_CONVERSIONS :: "(string \<times> string \<times> (rat \<Rightarrow> rat) option) list" where
  "FIELD_CONVERSIONS =
   [(''tempf'', ''temp_c'', Some fahrenheit_to_celsius),
    (''tempinf'', ''temp_in_c'', Some fahrenheit_to_celsius),
    (''temp1f'', ''temp1_c'', Some fahrenheit_to_celsius),
    (''temp2f'', ''temp2_c'', Some fahrenheit_to_celsius),
    (''temp3f'', ''temp3_c'', Some fahrenheit_to_celsius),
    (''temp4f'', ''temp4_c'', Some fahrenheit_to_celsius),
    (''temp5f'', ''temp5_c'', Some fahrenheit_to_celsius),
    (''temp6f'', ''temp6_c'', Some fahrenheit_to_celsius),
    (''temp7f'', ''temp7_c'', Some fahrenheit_to_celsius),
    (''temp8f'', ''temp8_c'', Some fahrenheit_to_celsius),
    (''temp9f'', ''temp9_c'', Some fahrenheit_to_celsius),
    (''temp10f'', ''temp10_c'', Some fahrenheit_to_celsius),
    (''feelsLike'', ''feels_like_c'', Some fahrenheit_to_celsius),
    (''feelsLikein'', ''feels_like_in_c'', Some fahrenheit_to_celsius),
    (''feelsLike1'', ''feels_like1_c'', Some fahrenheit_to_celsius),
    (''feelsLike2'', ''feels_like2_c'', Some fahrenheit_to_celsius),
    (''feelsLike3'', ''feels_like3_c'', Some fahrenheit_to_celsius),
    (''feelsLike4'', ''feels_like4_c'', Some fahrenheit_to_celsius),
    (''feelsLike5'', ''feels_like5_c'', Some fahrenheit_to_celsius),
    (''feelsLike6'', ''feels_like6_c'', Some fahrenheit_to_celsius),
    (''feelsLike7'', ''feels_like7_c'', Some fahrenheit_to_celsius),
    (''feelsLike8'', ''feels_like8_c'', Some fahrenheit_to_celsius),
    (''feelsLike9'', ''feels_like9_c'', Some fahrenheit_to_celsius),
    (''feelsLike10'', ''feels_like10_c'', Some fahrenheit_to_celsius),
    (''dewPoint'', ''dew_point_c'', Some fahrenheit_to_celsius),
    (''dewPointin'', ''dew_point_in_c'', Some fahrenheit_to_celsius),
    (''dewPoint1'', ''dew_point1_c'', Some fahrenheit_to_celsius),
    (''dewPoint2'', ''dew_point2_c'', Some fahrenheit_to_celsius),
    (''dewPoint3'', ''dew_point3_c'', Some fahrenheit_to_celsius),
    (''dewPoint4'', ''dew_point4_c'', Some fahrenheit_to_celsius),
    (''dewPoint5'', ''dew_point5_c'', Some fahrenheit_to_celsius),
    (''dewPoint6'', ''dew_point6_c'', Some fahrenheit_to_celsius),
    (''dewPoint7'', ''dew_point7_c'', Some fahrenheit_to_celsius),
    (''dewPoint8'', ''dew_point8_c'', Some fahrenheit_to_celsius),
    (''dewPoint9'', ''dew_point9_c'', Some fahrenheit_to_celsius),
    (''dewPoint10'', ''dew_point10_c'', Some fahrenheit_to_celsius),
    (''windspeedmph'', ''wind_speed_kmh'', Some mph_to_kmh),
    (''windgustmph'', ''wind_gust_kmh'', Some mph_to_kmh),
    (''maxdailygust'', ''max_daily_gust_kmh'', Some mph_to_kmh),
    (''windspdmph_avg2m'', ''wind_speed_avg_2m_kmh'', Some mph_to_kmh),
    (''windspdmph_avg10m'', ''wind_speed_avg_10m_kmh'', Some mph_to_kmh),
    (''baromrelin'', ''barom_rel_hpa'', Some inhg_to_hpa),
    (''baromabsin'', ''barom_abs_hpa'', Some inhg_to_hpa),
    (''hourlyrainin'', ''hourly_rain_mm'', Some inches_to_mm),
    (''dailyrainin'', ''daily_rain_mm'', Some inches_to_mm),
    (''weeklyrainin'', ''weekly_rain_mm'', Some inches_to_mm),
    (''monthlyrainin'', ''monthly_rain_mm'', Some inches_to_mm),
    (''yearlyrainin'', ''yearly_rain_mm'', Some inches_to_mm),
    (''eventrainin'', ''event_rain_mm'', Some inches_to_mm),
    (''totalrainin'', ''total_rain_mm'', Some inches_to_mm),
    (''24hourrainin'', ''rain_24h_mm'', Some inches_to_mm),
    (''humidity'', ''humidity'', None),
    (''humidityin'', ''humidity_in'', None),
    (''humidity1'', ''humidity1'', None),
    (''humidity2'', ''humidity2'', None),
    (''humidity3'', ''humidity3'', None),
    (''humidity4'', ''humidity4'', None),
    (''humidity5'', ''humidity5'', None),
    (''humidity6'', ''humidity6'', None),
    (''humidity7'', ''humidity7'', None),
    (''humidity8'', ''humidity8'', None),
    (''humidity9'', ''humidity9'', None),
    (''humidity10'', ''humidity10'', None),
    (''winddir'', ''wind_dir'', None),
    (''windgustdir'', ''wind_gust_dir'', None),
    (''winddir_avg2m'', ''wind_dir_avg_2m'', None),
    (''winddir_avg10m'', ''wind_dir_avg_10m'', None),
    (''uv'', ''uv'', None),
    (''solarradiation'', ''solar_radiation'', None),
    (''date'', ''date'', None),
    (''dateutc'', ''date_utc'', None),
    (''tz'', ''tz'', None)]"

definition EXCLUDED_FIELDS :: "string list" where
  "EXCLUDED_FIELDS = [''macAddress'', ''device'', ''loc'', ''lastRain'']"

definition NON_NUMERIC_FIELDS :: "string list" where
  "NON_NUMERIC_FIELDS = [''date'', ''date_utc'', ''tz'']"

text \<open>The body of the loop of \<^verbatim>\<open>convert_reading\<close>, for one item of the raw dictionary.\<close>

definition convert_item :: "pydict \<Rightarrow> string \<Rightarrow> pyval \<Rightarrow> pydict" where
  "convert_item converted key val =
     (if key \<in> set EXCLUDED_FIELDS then converted
      else case map_of FIELD_CONVERSIONS key of
             Some (metric_key, converter_fn) \<Rightarrow>
               (case converter_fn of
                  Some fn \<Rightarrow>
                    if isinstance_int_float val
                    then dict_set converted metric_key (VFloat (fn (num val)))
                    else dict_set converted metric_key val
                | None \<Rightarrow> dict_set converted metric_key val)
           | None \<Rightarrow> dict_set converted key val)"

fun convert_loop :: "pydict \<Rightarrow> pydict \<Rightarrow> pydict" where
  "convert_loop converted [] = converted"
| "convert_loop converted ((key, val) # raw_data) =
     convert_loop (convert_item converted key val) raw_data"

definition convert_reading :: "pydict \<Rightarrow> pydict" where
  "convert_reading raw_data = convert_loop [] raw_data"

definition get_numeric_fields :: "pydict \<Rightarrow> pydict" where
  "get_numeric_fields data =
     filter (\<lambda>(k, v). isinstance_int_float v \<and> k \<notin> set NON_NUMERIC_FIELDS) data"



section \<open>Store\<close>

text \<open>
  The fields of a Python \<^verbatim>\<open>datetime\<close>. The rows of the three tables carry the columns of
  \<^verbatim>\<open>DailyReading\<close>, \<^verbatim>\<open>MonthlyAggregate\<close> and \<^verbatim>\<open>YearlyAggregate\<close>; a \<^verbatim>\<open>Float\<close> column holds
  the number its value stands for.
\<close>

record datetime =
  dt_year :: int
  dt_month :: int
  dt_day :: int
  dt_hour :: int
  dt_minute :: int
  dt_second :: int
  dt_microsecond :: int

definition dt_tuple :: "datetime \<Rightarrow> int list" where
  "dt_tuple t = [dt_year t, dt_month t, dt_day t, dt_hour t, dt_minute t, dt_second t,
                 dt_microsecond t]"

fun lex_less :: "int list \<Rightarrow> int list \<Rightarrow> bool" where
  "lex_less (x # xs) (y # ys) = (x < y \<or> (x = y \<and> lex_less xs ys))"
| "lex_less xs ys = False"

definition dt_less :: "datetime \<Rightarrow> datetime \<Rightarrow> bool" where
  "dt_less a b = lex_less (dt_tuple a) (dt_tuple b)"

record daily_reading =
  dr_id :: nat
  dr_timestamp :: datetime
  dr_mac_address :: string
  dr_data :: pydict

record monthly_aggregate =
  ma_id :: nat
  ma_mac_address :: string
  ma_year :: int
  ma_month :: int
  ma_metric_name :: string
  ma_min_value :: rat
  ma_max_value :: rat
  ma_avg_value :: rat
  ma_count :: nat

record yearly_aggregate =
  ya_id :: nat
  ya_mac_address :: string
  ya_year :: int
  ya_metric_name :: string
  ya_min_value :: rat
  ya_max_value :: rat
  ya_avg_value :: rat
  ya_count :: nat

record database =
  daily_readings :: "daily_reading list"
  monthly_aggregates :: "monthly_aggregate list"
  yearly_aggregates :: "yearly_aggregate list"

text \<open>\<^verbatim>\<open>init_db\<close> creates the three tables, empty.\<close>

definition init_db :: database where
  "init_db = \<lparr>daily_readings = [], monthly_aggregates = [], yearly_aggregates = []\<rparr>"

text \<open>The integer primary key of a new row: one more than the largest in the table,
  1 in an empty table.\<close>

definition fresh_id :: "nat list \<Rightarrow> nat" where
  "fresh_id ids = fold max ids 0 + 1"

datatype error =
    HTTPStatusError nat
  | RequestError
  | JSONDecodeError
  | AttributeError
  | ValueError
  | ZeroDivisionError
  | MultipleResultsFound
  | QueueFull

section \<open>Collector\<close>

definition store_daily_reading :: "pydict \<Rightarrow> string \<Rightarrow> datetime \<Rightarrow> database \<Rightarrow> datetime \<times> database" where
  "store_daily_reading converted mac_address now db =
     (let reading = \<lparr>dr_id = fresh_id (map dr_id (daily_readings db)), dr_timestamp = now,
                      dr_mac_address = mac_address, dr_data = converted\<rparr>
      in (now, db\<lparr>daily_readings := daily_readings db @ [reading]\<rparr>))"

text \<open>\<^verbatim>\<open>purge_old_readings\<close>; \<open>cutoff\<close> is the clock's time at the call less the retention
  period.\<close>

definition purge_old_readings :: "string \<Rightarrow> datetime \<Rightarrow> database \<Rightarrow> nat \<times> database" where
  "purge_old_readings mac_address cutoff db =
     (let old = (\<lambda>r. dr_mac_address r = mac_address \<and> dt_less (dr_timestamp r) cutoff)
      in (length (filter old (daily_readings db)),
          db\<lparr>daily_readings := filter (\<lambda>r. \<not> old r) (daily_readings db)\<rparr>))"

text \<open>\<^verbatim>\<open>metrics.setdefault(key, []).append(value)\<close>\<close>

fun setdefault_append :: "(string \<times> pyval list) list \<Rightarrow> string \<Rightarrow> pyval \<Rightarrow> (string \<times> pyval list) list" where
  "setdefault_append [] key val = [(key, [val])]"
| "setdefault_append ((k, vs) # metrics) key val =
     (if k = key then (k, vs @ [val]) # metrics else (k, vs) # setdefault_append metrics key val)"

definition collect_metrics :: "pydict list \<Rightarrow> (string \<times> pyval list) list" where
  "collect_metrics rows =
     fold (\<lambda>data metrics. fold (\<lambda>(key, val) m. setdefault_append m key val)
                                (get_numeric_fields data) metrics)
          rows []"

text \<open>\<^verbatim>\<open>min\<close>, \<open>max\<close> and \<open>sum\<close> of a list of numbers; \<open>min\<close> and \<open>max\<close> of an empty list raise
  \<^verbatim>\<open>ValueError\<close>, and keep the first of several equal items.\<close>

fun py_min :: "pyval list \<Rightarrow> error + pyval" where
  "py_min [] = Inl ValueError"
| "py_min (x # xs) = Inr (fold (\<lambda>item cur. if num item < num cur then item else cur) xs x)"

fun py_max :: "pyval list \<Rightarrow> error + pyval" where
  "py_max [] = Inl ValueError"
| "py_max (x # xs) = Inr (fold (\<lambda>item cur. if num cur < num item then item else cur) xs x)"

definition py_sum :: "pyval list \<Rightarrow> rat" where
  "py_sum vs = fold (\<lambda>item acc. acc + num item) vs 0"

text \<open>The four statistics of a metric, as both branches of the upsert compute them:
  \<^verbatim>\<open>min(values)\<close>, \<^verbatim>\<open>max(values)\<close>, \<^verbatim>\<open>round(sum(values) / len(values), 2)\<close>, \<^verbatim>\<open>len(values)\<close>.\<close>

definition statistics :: "pyval list \<Rightarrow> error + (rat \<times> rat \<times> rat \<times> nat)" where
  "statistics vs =
     (case py_min vs of Inl e \<Rightarrow> Inl e
      | Inr lo \<Rightarrow>
     (case py_max vs of Inl e \<Rightarrow> Inl e
      | Inr hi \<Rightarrow>
        if length vs = 0 then Inl ZeroDivisionError
        else Inr (num lo, num hi, py_round (py_sum vs / of_nat (length vs)) 2, length vs)))"

text \<open>
  One round of the upsert loop of \<^verbatim>\<open>update_monthly_aggregates\<close>. The select gives the rows
  of the key; \<^verbatim>\<open>scalar_one_or_none\<close> raises on more than one. The row found is overwritten
  where it stands; otherwise a new row is added.
\<close>

definition ma_matches :: "string \<Rightarrow> int \<Rightarrow> int \<Rightarrow> string \<Rightarrow> monthly_aggregate \<Rightarrow> bool" where
  "ma_matches mac_address y m metric_name a =
     (ma_mac_address a = mac_address \<and> ma_year a = y \<and> ma_month a = m
      \<and> ma_metric_name a = metric_name)"

definition upsert_monthly ::
  "string \<Rightarrow> int \<Rightarrow> int \<Rightarrow> monthly_aggregate list \<Rightarrow> string \<Rightarrow> pyval list
     \<Rightarrow> error + monthly_aggregate list" where
  "upsert_monthly mac_address y m table metric_name vals =
     (case filter (ma_matches mac_address y m metric_name) table of
        _ # _ # _ \<Rightarrow> Inl MultipleResultsFound
      | [agg] \<Rightarrow>
          (case statistics vals of Inl e \<Rightarrow> Inl e
           | Inr (lo, hi, avg, n) \<Rightarrow>
               Inr (map (\<lambda>a. if ma_matches mac_address y m metric_name a
                              then a\<lparr>ma_min_value := lo, ma_max_value := hi,
                                     ma_avg_value := avg, ma_count := n\<rparr>
                              else a) table))
      | [] \<Rightarrow>
          (case statistics vals of Inl e \<Rightarrow> Inl e
           | Inr (lo, hi, avg, n) \<Rightarrow>
               Inr (table @ [\<lparr>ma_id = fresh_id (map ma_id table), ma_mac_address = mac_address,
                               ma_year = y, ma_month = m, ma_metric_name = metric_name,
                               ma_min_value = lo, ma_max_value = hi, ma_avg_value = avg,
                               ma_count = n\<rparr>])))"

fun upsert_monthly_loop ::
  "string \<Rightarrow> int \<Rightarrow> int \<Rightarrow> monthly_aggregate list \<Rightarrow> (string \<times> pyval list) list
     \<Rightarrow> error + monthly_aggregate list" where
  "upsert_monthly_loop mac_address y m table [] = Inr table"
| "upsert_monthly_loop mac_address y m table ((metric_name, vals) # metrics) =
     (case upsert_monthly mac_address y m table metric_name vals of
        Inl e \<Rightarrow> Inl e
      | Inr table' \<Rightarrow> upsert_monthly_loop mac_address y m table' metrics)"

text \<open>The readings of the month of \<open>ts\<close>. The query compares the year and the month as
  the strings \<^verbatim>\<open>strftime\<close> and \<^verbatim>\<open>str\<close> give, which agree on the years of four digits the
  clock produces exactly when the numbers do.\<close>

definition monthly_rows :: "string \<Rightarrow> datetime \<Rightarrow> database \<Rightarrow> pydict list" where
  "monthly_rows mac_address ts db =
     map dr_data (filter (\<lambda>r. dr_mac_address r = mac_address
                              \<and> dt_year (dr_timestamp r) = dt_year ts
                              \<and> dt_month (dr_timestamp r) = dt_month ts) (daily_readings db))"

definition update_monthly_aggregates :: "string \<Rightarrow> datetime \<Rightarrow> database \<Rightarrow> error + database" where
  "update_monthly_aggregates mac_address ts db =
     (let rows = monthly_rows mac_address ts db
      in if rows = [] then Inr db
         else case upsert_monthly_loop mac_address (dt_year ts) (dt_month ts)
                     (monthly_aggregates db) (collect_metrics rows) of
                Inl e \<Rightarrow> Inl e
              | Inr table \<Rightarrow> Inr (db\<lparr>monthly_aggregates := table\<rparr>))"

definition ya_matches :: "string \<Rightarrow> int \<Rightarrow> string \<Rightarrow> yearly_aggregate \<Rightarrow> bool" where
  "ya_matches mac_address y metric_name a =
     (ya_mac_address a = mac_address \<and> ya_year a = y \<and> ya_metric_name a = metric_name)"

definition upsert_yearly ::
  "string \<Rightarrow> int \<Rightarrow> yearly_aggregate list \<Rightarrow> string \<Rightarrow> pyval list
     \<Rightarrow> error + yearly_aggregate list" where
  "upsert_yearly mac_address y table metric_name vals =
     (case filter (ya_matches mac_address y metric_name) table of
        _ # _ # _ \<Rightarrow> Inl MultipleResultsFound
      | [agg] \<Rightarrow>
          (case statistics vals of Inl e \<Rightarrow> Inl e
           | Inr (lo, hi, avg, n) \<Rightarrow>
               Inr (map (\<lambda>a. if ya_matches mac_address y metric_name a
                              then a\<lparr>ya_min_value := lo, ya_max_value := hi,
                                     ya_avg_value := avg, ya_count := n\<rparr>
                              else a) table))
      | [] \<Rightarrow>
          (case statistics vals of Inl e \<Rightarrow> Inl e
           | Inr (lo, hi, avg, n) \<Rightarrow>
               Inr (table @ [\<lparr>ya_id = fresh_id (map ya_id table), ya_mac_address = mac_address,
                               ya_year = y, ya_metric_name = metric_name,
                               ya_min_value = lo, ya_max_value = hi, ya_avg_value = avg,
                               ya_count = n\<rparr>])))"

fun upsert_yearly_loop ::
  "string \<Rightarrow> int \<Rightarrow> yearly_aggregate list \<Rightarrow> (string \<times> pyval list) list
     \<Rightarrow> error + yearly_aggregate list" where
  "upsert_yearly_loop mac_address y table [] = Inr table"
| "upsert_yearly_loop mac_address y table ((metric_name, vals) # metrics) =
     (case upsert_yearly mac_address y table metric_name vals of
        Inl e \<Rightarrow> Inl e
      | Inr table' \<Rightarrow> upsert_yearly_loop mac_address y table' metrics)"

definition yearly_rows :: "string \<Rightarrow> datetime \<Rightarrow> database \<Rightarrow> pydict list" where
  "yearly_rows mac_address ts db =
     map dr_data (filter (\<lambda>r. dr_mac_address r = mac_address
                              \<and> dt_year (dr_timestamp r) = dt_year ts) (daily_readings db))"

definition update_yearly_aggregates :: "string \<Rightarrow> datetime \<Rightarrow> database \<Rightarrow> error + database" where
  "update_yearly_aggregates mac_address ts db =
     (let rows = yearly_rows mac_address ts db
      in if rows = [] then Inr db
         else case upsert_yearly_loop mac_address (dt_year ts) (yearly_aggregates db)
                     (collect_metrics rows) of
                Inl e \<Rightarrow> Inl e
              | Inr table \<Rightarrow> Inr (db\<lparr>yearly_aggregates := table\<rparr>))"

text \<open>The values that contribute to a metric in a period: the values under its name in
  the numeric fields of the period's readings, in the order of the readings.\<close>

definition contributing_values :: "pydict list \<Rightarrow> string \<Rightarrow> pyval list" where
  "contributing_values rows metric_name =
     map snd (filter (\<lambda>(k, v). k = metric_name) (concat (map get_numeric_fields rows)))"

text \<open>The columns of the uniqueness constraint of \<^verbatim>\<open>MonthlyAggregate\<close>, the constraint
  itself, and the four statistics of a row.\<close>

definition ma_key :: "monthly_aggregate \<Rightarrow> string \<times> int \<times> int \<times> string" where
  "ma_key a = (ma_mac_address a, ma_year a, ma_month a, ma_metric_name a)"

definition monthly_unique :: "monthly_aggregate list \<Rightarrow> bool" where
  "monthly_unique table = distinct (map ma_key table)"

definition ma_statistics :: "monthly_aggregate \<Rightarrow> rat \<times> rat \<times> rat \<times> nat" where
  "ma_statistics a = (ma_min_value a, ma_max_value a, ma_avg_value a, ma_count a)"

text \<open>The same for \<^verbatim>\<open>YearlyAggregate\<close>.\<close>

definition ya_key :: "yearly_aggregate \<Rightarrow> string \<times> int \<times> string" where
  "ya_key a = (ya_mac_address a, ya_year a, ya_metric_name a)"

definition yearly_unique :: "yearly_aggregate list \<Rightarrow> bool" where
  "yearly_unique table = distinct (map ya_key table)"

definition ya_statistics :: "yearly_aggregate \<Rightarrow> rat \<times> rat \<times> rat \<times> nat" where
  "ya_statistics a = (ya_min_value a, ya_max_value a, ya_avg_value a, ya_count a)"

text \<open>The states of the store that the collector can reach from the empty tables:
  by storing a reading, by recomputing the aggregates of a month or of a year, and by
  purging.\<close>

inductive reachable_db :: "database \<Rightarrow> bool" where
  rd_init: "reachable_db init_db"
| rd_store: "reachable_db db \<Longrightarrow> reachable_db (snd (store_daily_reading converted mac now db))"
| rd_monthly: "reachable_db db \<Longrightarrow> update_monthly_aggregates mac ts db = Inr db'
               \<Longrightarrow> reachable_db db'"
| rd_yearly: "reachable_db db \<Longrightarrow> update_yearly_aggregates mac ts db = Inr db'
              \<Longrightarrow> reachable_db db'"
| rd_purge: "reachable_db db \<Longrightarrow> reachable_db (snd (purge_old_readings mac cutoff db))"

section \<open>Broadcaster\<close>

text \<open>
  An \<^verbatim>\<open>asyncio.Queue\<close>: the items waiting, oldest first, and the bound \<open>maxsize\<close>. Queues
  are compared by identity; \<open>qid\<close> is the identity of the object.
\<close>

record queue =
  qid :: nat
  items :: "pydict list"
  maxsize :: nat

definition full :: "queue \<Rightarrow> bool" where
  "full q = (if maxsize q \<le> 0 then False else maxsize q \<le> length (items q))"

definition put_nowait :: "queue \<Rightarrow> pydict \<Rightarrow> error + queue" where
  "put_nowait q item = (if full q then Inl QueueFull else Inr (q\<lparr>items := items q @ [item]\<rparr>))"

text \<open>\<^verbatim>\<open>queue.get()\<close> takes the oldest item; on an empty queue it waits (\<open>None\<close>).\<close>

definition queue_get :: "queue \<Rightarrow> (pydict \<times> queue) option" where
  "queue_get q = (case items q of [] \<Rightarrow> None | x # xs \<Rightarrow> Some (x, q\<lparr>items := xs\<rparr>))"

record broadcaster =
  subscribers :: "queue list"

definition new_broadcaster :: broadcaster where
  "new_broadcaster = \<lparr>subscribers = []\<rparr>"

text \<open>The body of the loop of \<^verbatim>\<open>publish\<close>: \<^verbatim>\<open>put_nowait\<close> under \<^verbatim>\<open>except asyncio.QueueFull: pass\<close>.
  Any other exception would leave the loop.\<close>

definition try_put :: "queue \<Rightarrow> pydict \<Rightarrow> error + queue" where
  "try_put q data =
     (case put_nowait q data of
        Inr q' \<Rightarrow> Inr q'
      | Inl e \<Rightarrow> if e = QueueFull then Inr q else Inl e)"

fun publish_loop :: "queue list \<Rightarrow> pydict \<Rightarrow> error + queue list" where
  "publish_loop [] data = Inr []"
| "publish_loop (q # qs) data =
     (case try_put q data of
        Inl e \<Rightarrow> Inl e
      | Inr q' \<Rightarrow> (case publish_loop qs data of
                     Inl e \<Rightarrow> Inl e
                   | Inr qs' \<Rightarrow> Inr (q' # qs')))"

definition publish :: "broadcaster \<Rightarrow> pydict \<Rightarrow> error + broadcaster" where
  "publish b data =
     (case publish_loop (subscribers b) data of
        Inl e \<Rightarrow> Inl e
      | Inr qs \<Rightarrow> Inr (b\<lparr>subscribers := qs\<rparr>))"

text \<open>The first step of \<^verbatim>\<open>subscribe\<close>: a new queue of \<open>maxsize = 100\<close>, distinct from every
  registered one, is appended to the list. The result is the queue's identity and the
  broadcaster.\<close>

definition subscribe :: "broadcaster \<Rightarrow> nat \<times> broadcaster" where
  "subscribe b =
     (let q = \<lparr>qid = fresh_id (map qid (subscribers b)), items = [], maxsize = 100\<rparr>
      in (qid q, b\<lparr>subscribers := subscribers b @ [q]\<rparr>))"

text \<open>\<^verbatim>\<open>list.remove\<close>: the first equal element goes; \<^verbatim>\<open>ValueError\<close> when there is none.\<close>

fun list_remove :: "nat \<Rightarrow> queue list \<Rightarrow> error + queue list" where
  "list_remove i [] = Inl ValueError"
| "list_remove i (q # qs) =
     (if qid q = i then Inr qs
      else case list_remove i qs of Inl e \<Rightarrow> Inl e | Inr qs' \<Rightarrow> Inr (q # qs'))"

text \<open>The \<^verbatim>\<open>finally\<close> block of \<^verbatim>\<open>subscribe\<close>.\<close>

definition unsubscribe :: "broadcaster \<Rightarrow> nat \<Rightarrow> error + broadcaster" where
  "unsubscribe b i =
     (case list_remove i (subscribers b) of
        Inl e \<Rightarrow> Inl e
      | Inr qs \<Rightarrow> Inr (b\<lparr>subscribers := qs\<rparr>))"

definition subscriber_count :: "broadcaster \<Rightarrow> nat" where
  "subscriber_count b = length (subscribers b)"

text \<open>The states of the broadcaster that the program can reach: it starts empty, and
  is changed by \<^verbatim>\<open>subscribe\<close>, by \<^verbatim>\<open>publish\<close>, by a subscriber taking an item from its
  queue and by the \<^verbatim>\<open>finally\<close> block of \<^verbatim>\<open>subscribe\<close>.\<close>

inductive reachable_broadcaster :: "broadcaster \<Rightarrow> bool" where
  rb_init: "reachable_broadcaster new_broadcaster"
| rb_subscribe: "reachable_broadcaster b \<Longrightarrow> reachable_broadcaster (snd (subscribe b))"
| rb_publish: "reachable_broadcaster b \<Longrightarrow> publish b data = Inr b' \<Longrightarrow> reachable_broadcaster b'"
| rb_get: "reachable_broadcaster b \<Longrightarrow> i < length (subscribers b)
           \<Longrightarrow> queue_get (subscribers b ! i) = Some (x, q')
           \<Longrightarrow> reachable_broadcaster (b\<lparr>subscribers := (subscribers b)[i := q']\<rparr>)"
| rb_unsubscribe: "reachable_broadcaster b \<Longrightarrow> unsubscribe b i = Inr b' \<Longrightarrow> reachable_broadcaster b'"

definition bounded_queue :: "queue \<Rightarrow> bool" where
  "bounded_queue q = (maxsize q = 100 \<and> length (items q) \<le> 100)"

section \<open>Collection loop\<close>

record settings =
  awn_api_key :: string
  awn_application_key :: string
  awn_mac_address :: string
  collection_interval_seconds :: int
  daily_retention_days :: int
  database_url :: string

text \<open>What the HTTP request of one tick meets: a response with its status and its body
  (\<open>None\<close> when the body is not JSON), or a failure of the transport.\<close>

datatype http_outcome =
    Response nat "pyval option"
  | TransportFailure

text \<open>\<^verbatim>\<open>fetch_latest_reading\<close>. \<^verbatim>\<open>raise_for_status\<close> raises on a status outside 2xx. The
  result \<open>VNone\<close> is Python's \<open>None\<close>.\<close>

definition fetch_latest_reading :: "http_outcome \<Rightarrow> error + pyval" where
  "fetch_latest_reading outcome =
     (case outcome of
        TransportFailure \<Rightarrow> Inl RequestError
      | Response status body \<Rightarrow>
          if \<not> (200 \<le> status \<and> status < 300) then Inl (HTTPStatusError status)
          else (case body of
                  None \<Rightarrow> Inl JSONDecodeError
                | Some data \<Rightarrow>
                    (case data of
                       VList (x # xs) \<Rightarrow> Inr x
                     | _ \<Rightarrow> Inr VNone)))"

datatype event =
    LogDebug string
  | LogInfo string
  | LogWarning string
  | LogError string
  | LogException string
  | Sleep int

record world =
  w_db :: database
  w_broadcaster :: broadcaster

text \<open>What one tick reads from its surroundings: the HTTP outcome, the clock when the
  reading is stored, and the clock less the retention period when the purge runs.\<close>

record tick_env =
  response :: http_outcome
  store_now :: datetime
  purge_cutoff :: datetime

text \<open>
  The \<^verbatim>\<open>try\<close> block of \<^verbatim>\<open>collection_loop\<close>: the exception that left it, if any, the world as
  the steps completed so far have left it, and what was logged.
\<close>

definition try_block :: "string \<Rightarrow> tick_env \<Rightarrow> world \<Rightarrow> error option \<times> world \<times> event list" where
  "try_block mac env w =
     (case fetch_latest_reading (response env) of
        Inl e \<Rightarrow> (Some e, w, [])
      | Inr raw \<Rightarrow>
          if raw = VNone then (None, w, [LogWarning ''No data returned from AWN API''])
          else (case raw of
                  VDict raw_data \<Rightarrow>
                    (let converted = convert_reading raw_data;
                         (ts, db1) = store_daily_reading converted mac (store_now env) (w_db w)
                     in case update_monthly_aggregates mac ts db1 of
                          Inl e \<Rightarrow> (Some e, w\<lparr>w_db := db1\<rparr>, [])
                        | Inr db2 \<Rightarrow>
                     (case update_yearly_aggregates mac ts db2 of
                          Inl e \<Rightarrow> (Some e, w\<lparr>w_db := db2\<rparr>, [])
                        | Inr db3 \<Rightarrow>
                     (let (deleted, db4) = purge_old_readings mac (purge_cutoff env) db3;
                          purged = (if deleted \<noteq> 0 then [LogInfo ''Purged old daily readings'']
                                    else [])
                      in case publish (w_broadcaster w) converted of
                           Inl e \<Rightarrow> (Some e, w\<lparr>w_db := db4\<rparr>, purged)
                         | Inr b \<Rightarrow>
                             (None, \<lparr>w_db = db4, w_broadcaster = b\<rparr>,
                              purged @ [LogDebug ''Collected and stored reading'']))))
                | _ \<Rightarrow> (Some AttributeError, w, [])))"

text \<open>The \<^verbatim>\<open>except\<close> clauses, in the order of the source.\<close>

definition handlers :: "error option \<Rightarrow> event list" where
  "handlers exc =
     (case exc of
        None \<Rightarrow> []
      | Some (HTTPStatusError status_code) \<Rightarrow>
          if status_code = 429
          then [LogWarning ''AWN API rate limited, backing off'', Sleep 5]
          else [LogError ''AWN API HTTP error'']
      | Some RequestError \<Rightarrow> [LogError ''AWN API request error'']
      | Some e \<Rightarrow> [LogException ''Unexpected error in collection loop''])"

text \<open>One round of \<^verbatim>\<open>while True\<close>: the \<^verbatim>\<open>try\<close> block, its handlers, then the sleep of the
  interval.\<close>

definition tick :: "string \<Rightarrow> int \<Rightarrow> tick_env \<Rightarrow> world \<Rightarrow> world \<times> event list" where
  "tick mac interval env w =
     (let (exc, w', logged) = try_block mac env w
      in (w', logged @ handlers exc @ [Sleep interval]))"

text \<open>\<^verbatim>\<open>collection_loop\<close> over the environments of its first rounds. The loop itself has no
  end; it goes through any number of rounds.\<close>

fun ticks :: "string \<Rightarrow> int \<Rightarrow> tick_env list \<Rightarrow> world \<Rightarrow> world \<times> event list" where
  "ticks mac interval [] w = (w, [])"
| "ticks mac interval (env # envs) w =
     (let (w', evs) = tick mac interval env w;
          (w'', evs') = ticks mac interval envs w'
      in (w'', evs @ evs'))"

definition collection_loop :: "settings \<Rightarrow> tick_env list \<Rightarrow> world \<Rightarrow> world \<times> event list" where
  "collection_loop s envs w =
     (let mac = awn_mac_address s;
          interval = collection_interval_seconds s;
          (w', evs) = ticks mac interval envs w
      in (w', LogInfo ''Starting collector'' # evs))"

section \<open>Startup\<close>

text \<open>The startup half of \<^verbatim>\<open>lifespan\<close>: whether the collector task was created, and what
  was logged. A string is true when it is not empty.\<close>

definition lifespan_startup :: "settings \<Rightarrow> bool \<times> event list" where
  "lifespan_startup s =
     (if awn_api_key s \<noteq> [] \<and> awn_mac_address s \<noteq> []
      then (True, [LogInfo ''Database initialized'', LogInfo ''Data collector started''])
      else (False, [LogInfo ''Database initialized'',
                    LogWarning ''AWN credentials not configured -- collector disabled. Set AWN_API_KEY, AWN_APPLICATION_KEY, and AWN_MAC_ADDRESS in .env'']))"

section \<open>Properties of the converter\<close>


lemma table_all_functions:
  "list_all (\<lambda>(k, mk, f). case f of None \<Rightarrow> True
       | Some fn \<Rightarrow> fn = fahrenheit_to_celsius \<or> fn = mph_to_kmh \<or> fn = inhg_to_hpa
                    \<or> fn = inches_to_mm) FIELD_CONVERSIONS"
  by (simp add: FIELD_CONVERSIONS_def)

lemma table_all_metric_keys:
  "list_all (\<lambda>(k, mk, f). mk \<notin> set EXCLUDED_FIELDS) FIELD_CONVERSIONS"
  by (simp add: FIELD_CONVERSIONS_def EXCLUDED_FIELDS_def)

lemma table_all_keys:
  "list_all (\<lambda>(k, mk, f). k \<notin> set EXCLUDED_FIELDS) FIELD_CONVERSIONS"
  by (simp add: FIELD_CONVERSIONS_def EXCLUDED_FIELDS_def)








lemma table_entry:
  assumes "map_of FIELD_CONVERSIONS key = Some (metric_key, f)"
  shows "key \<notin> set EXCLUDED_FIELDS" and "metric_key \<notin> set EXCLUDED_FIELDS"
    and "\<And>fn. f = Some fn \<Longrightarrow>
           fn = fahrenheit_to_celsius \<or> fn = mph_to_kmh \<or> fn = inhg_to_hpa \<or> fn = inches_to_mm"
proof -
  have m: "(key, metric_key, f) \<in> set FIELD_CONVERSIONS"
    using assms by (rule map_of_SomeD)
  show "key \<notin> set EXCLUDED_FIELDS"
    using table_all_keys m unfolding list_all_iff by fastforce
  show "metric_key \<notin> set EXCLUDED_FIELDS"
    using table_all_metric_keys m unfolding list_all_iff by fastforce
  show "fn = fahrenheit_to_celsius \<or> fn = mph_to_kmh \<or> fn = inhg_to_hpa \<or> fn = inches_to_mm"
    if "f = Some fn" for fn
    using table_all_functions m that unfolding list_all_iff by fastforce
qed

lemma dict_keys_dict_set: "set (dict_keys (dict_set d k v)) = insert k (set (dict_keys d))"
  by (induction d k v rule: dict_set.induct) (auto simp: dict_keys_def)

lemma convert_item_keys:
  "set (dict_keys (convert_item converted key val)) \<inter> set EXCLUDED_FIELDS
     = set (dict_keys converted) \<inter> set EXCLUDED_FIELDS"
proof (cases "key \<in> set EXCLUDED_FIELDS")
  case True
  then show ?thesis by (simp add: convert_item_def)
next
  case False
  show ?thesis
  proof (cases "map_of FIELD_CONVERSIONS key")
    case None
    then show ?thesis using False by (simp add: convert_item_def dict_keys_dict_set)
  next
    case (Some e)
    obtain metric_key f where e: "e = (metric_key, f)" by (cases e)
    have "metric_key \<notin> set EXCLUDED_FIELDS"
      using table_entry(2) Some e by simp
    then show ?thesis using False Some e
      by (simp add: convert_item_def dict_keys_dict_set split: option.split)
  qed
qed

lemma convert_loop_keys:
  "set (dict_keys (convert_loop converted raw_data)) \<inter> set EXCLUDED_FIELDS
     = set (dict_keys converted) \<inter> set EXCLUDED_FIELDS"
  by (induction converted raw_data rule: convert_loop.induct) (simp_all add: convert_item_keys)





text \<open>
  C7. For every raw input and every key of the excluded set (\<open>macAddress\<close>, \<open>device\<close>,
  \<open>loc\<close>, \<open>lastRain\<close>), the output of \<^verbatim>\<open>convert_reading\<close> never contains that key.
\<close>

theorem convert_drops_excluded:
  "set (dict_keys (convert_reading raw_data)) \<inter> set EXCLUDED_FIELDS = {}
   \<and> ''macAddress'' \<notin> set (dict_keys (convert_reading raw_data))
   \<and> ''device'' \<notin> set (dict_keys (convert_reading raw_data))
   \<and> ''loc'' \<notin> set (dict_keys (convert_reading raw_data))
   \<and> ''lastRain'' \<notin> set (dict_keys (convert_reading raw_data))"
proof -
  have e: "set (dict_keys (convert_reading raw_data)) \<inter> set EXCLUDED_FIELDS = {}"
    using convert_loop_keys [of "[]" raw_data] by (simp add: convert_reading_def dict_keys_def)
  then show ?thesis by (auto simp: EXCLUDED_FIELDS_def)
qed




section \<open>Properties of the broadcaster\<close>

lemma try_put_eq: "try_put q data = Inr (if full q then q else q\<lparr>items := items q @ [data]\<rparr>)"
  by (simp add: try_put_def put_nowait_def)

lemma publish_loop_eq:
  "publish_loop qs data = Inr (map (\<lambda>q. if full q then q else q\<lparr>items := items q @ [data]\<rparr>) qs)"
  by (induction qs) (simp_all add: try_put_eq)

lemma publish_eq:
  "publish b data =
     Inr (b\<lparr>subscribers := map (\<lambda>q. if full q then q else q\<lparr>items := items q @ [data]\<rparr>)
                               (subscribers b)\<rparr>)"
  by (simp add: publish_def publish_loop_eq)

lemma list_remove_subset: "list_remove i qs = Inr qs' \<Longrightarrow> set qs' \<subseteq> set qs"
  by (induction qs arbitrary: qs') (auto split: if_splits sum.splits)

lemma reachable_bounded:
  "reachable_broadcaster b \<Longrightarrow> \<forall>q \<in> set (subscribers b). bounded_queue q"
proof (induction rule: reachable_broadcaster.induct)
  case rb_init
  then show ?case by (simp add: new_broadcaster_def)
next
  case (rb_subscribe b)
  then show ?case by (simp add: subscribe_def Let_def bounded_queue_def)
next
  case (rb_publish b data b')
  then show ?case by (auto simp: publish_eq bounded_queue_def full_def)
next
  case (rb_get b i x q')
  have "bounded_queue (subscribers b ! i)" using rb_get by simp
  then have "bounded_queue q'" using rb_get(3)
    by (auto simp: queue_get_def bounded_queue_def split: list.splits)
  then show ?case using rb_get.IH by (auto dest: set_update_subset_insert [THEN subsetD])
next
  case (rb_unsubscribe b i b')
  from rb_unsubscribe(2) obtain qs where qs: "list_remove i (subscribers b) = Inr qs"
    and b': "b' = b\<lparr>subscribers := qs\<rparr>"
    by (auto simp: unsubscribe_def split: sum.splits)
  have "set qs \<subseteq> set (subscribers b)" using qs by (rule list_remove_subset)
  then show ?case using rb_unsubscribe.IH b' by auto
qed

text \<open>
  C4. For every state of the subscriber list and every reading, \<^verbatim>\<open>publish\<close> returns
  without an exception; each queue that is not full has the reading appended, each full
  queue is left as it is, whatever the other queues hold; with no subscriber nothing
  changes. In every reachable state each queue has \<open>maxsize = 100\<close>, so a queue is full,
  and the reading dropped for it, exactly when it holds 100 readings.
\<close>

theorem publish_drops_on_full:
  "(\<exists>b'. publish b data = Inr b'
        \<and> length (subscribers b') = length (subscribers b)
        \<and> (\<forall>i < length (subscribers b).
             subscribers b' ! i =
               (if full (subscribers b ! i) then subscribers b ! i
                else (subscribers b ! i)\<lparr>items := items (subscribers b ! i) @ [data]\<rparr>)))
   \<and> (subscribers b = [] \<longrightarrow> publish b data = Inr b)
   \<and> (reachable_broadcaster b \<longrightarrow>
        (\<forall>q \<in> set (subscribers b).
            maxsize q = 100 \<and> length (items q) \<le> 100 \<and> (full q \<longleftrightarrow> length (items q) = 100)))"
proof -
  have "\<forall>q \<in> set (subscribers b).
            maxsize q = 100 \<and> length (items q) \<le> 100 \<and> (full q \<longleftrightarrow> length (items q) = 100)"
    if "reachable_broadcaster b"
    using reachable_bounded [OF that] by (auto simp: bounded_queue_def full_def)
  then show ?thesis by (auto simp: publish_eq)
qed

theorem publish_drops_on_full_witness:
  "reachable_broadcaster (snd (subscribe new_broadcaster))
   \<and> subscribers (snd (subscribe new_broadcaster)) = [\<lparr>qid = 1, items = [], maxsize = 100\<rparr>]
   \<and> publish (snd (subscribe new_broadcaster)) [(''temp_c'', VInt 1)]
       = Inr \<lparr>subscribers = [\<lparr>qid = 1, items = [[(''temp_c'', VInt 1)]], maxsize = 100\<rparr>]\<rparr>
   \<and> publish \<lparr>subscribers = [\<lparr>qid = 1, items = replicate 100 [], maxsize = 100\<rparr>,
                              \<lparr>qid = 2, items = [], maxsize = 100\<rparr>]\<rparr> [(''temp_c'', VInt 1)]
       = Inr \<lparr>subscribers = [\<lparr>qid = 1, items = replicate 100 [], maxsize = 100\<rparr>,
                              \<lparr>qid = 2, items = [[(''temp_c'', VInt 1)]], maxsize = 100\<rparr>]\<rparr>"
proof -
  let ?d = "[(''temp_c'', VInt 1)]"
  let ?b0 = "snd (subscribe new_broadcaster)"
  let ?b1 = "\<lparr>subscribers = [\<lparr>qid = 1, items = replicate 100 [], maxsize = 100\<rparr>,
                              \<lparr>qid = 2, items = [], maxsize = 100\<rparr>]\<rparr>"
  have r: "reachable_broadcaster ?b0" by (intro reachable_broadcaster.intros)
  have s: "subscribers ?b0 = [\<lparr>qid = 1, items = [], maxsize = 100\<rparr>]"
    by (simp add: subscribe_def new_broadcaster_def fresh_id_def)
  from publish_drops_on_full [of ?b0 ?d] r s
  have f0: "\<not> full \<lparr>qid = 1, items = [], maxsize = 100\<rparr>" by auto
  from publish_drops_on_full [of ?b0 ?d] obtain b' where
    b': "publish ?b0 ?d = Inr b'" "length (subscribers b') = length (subscribers ?b0)"
      "\<forall>i < length (subscribers ?b0). subscribers b' ! i =
               (if full (subscribers ?b0 ! i) then subscribers ?b0 ! i
                else (subscribers ?b0 ! i)\<lparr>items := items (subscribers ?b0 ! i) @ [?d]\<rparr>)"
    by blast
  have "subscribers b' = [\<lparr>qid = 1, items = [?d], maxsize = 100\<rparr>]"
    using b'(2,3) s f0 by (auto simp: list_eq_iff_nth_eq)
  then have p0: "publish ?b0 ?d = Inr \<lparr>subscribers = [\<lparr>qid = 1, items = [?d], maxsize = 100\<rparr>]\<rparr>"
    using b'(1) by (cases b') simp
  from publish_drops_on_full [of ?b1 ?d] obtain b'' where
    b'': "publish ?b1 ?d = Inr b''" "length (subscribers b'') = length (subscribers ?b1)"
      "\<forall>i < length (subscribers ?b1). subscribers b'' ! i =
               (if full (subscribers ?b1 ! i) then subscribers ?b1 ! i
                else (subscribers ?b1 ! i)\<lparr>items := items (subscribers ?b1 ! i) @ [?d]\<rparr>)"
    by blast
  have "subscribers b'' = [\<lparr>qid = 1, items = replicate 100 [], maxsize = 100\<rparr>,
                              \<lparr>qid = 2, items = [?d], maxsize = 100\<rparr>]"
    using b''(2) b''(3) [rule_format, of 0] b''(3) [rule_format, of 1]
    by (auto simp: list_eq_iff_nth_eq full_def less_Suc_eq)
  then have p1: "publish ?b1 ?d = Inr \<lparr>subscribers = [\<lparr>qid = 1, items = replicate 100 [], maxsize = 100\<rparr>,
                              \<lparr>qid = 2, items = [?d], maxsize = 100\<rparr>]\<rparr>"
    using b''(1) by (cases b'') simp
  show ?thesis using r s p0 p1 by simp
qed

text \<open>
  C10. For every state and every reading, \<^verbatim>\<open>publish\<close> leaves the list of subscribers as it
  was: the same queues (by identity, with the same bounds) in the same order, and the same
  \<^verbatim>\<open>subscriber_count\<close>; only the items of the queues change.
\<close>

theorem publish_keeps_registry:
  "\<exists>b'. publish b data = Inr b'
      \<and> map qid (subscribers b') = map qid (subscribers b)
      \<and> map maxsize (subscribers b') = map maxsize (subscribers b)
      \<and> subscriber_count b' = subscriber_count b"
  by (simp add: publish_eq subscriber_count_def comp_def)

section \<open>Properties of the collection loop and of the startup\<close>

text \<open>
  C5. When the API answers with status 429, the round of the loop raises nothing: it
  logs the warning, sleeps 5 seconds, stores, aggregates, purges and publishes nothing
  (the world is unchanged), sleeps the configured interval, and the loop goes on with the
  next round.
\<close>

theorem rate_limit_tick:
  "tick mac interval (env\<lparr>response := Response 429 body\<rparr>) w =
     (w, [LogWarning ''AWN API rate limited, backing off'', Sleep 5, Sleep interval])
   \<and> ticks mac interval (env\<lparr>response := Response 429 body\<rparr> # envs) w =
       (fst (ticks mac interval envs w),
        [LogWarning ''AWN API rate limited, backing off'', Sleep 5, Sleep interval]
          @ snd (ticks mac interval envs w))"
proof -
  have t: "tick mac interval (env\<lparr>response := Response 429 body\<rparr>) w =
     (w, [LogWarning ''AWN API rate limited, backing off'', Sleep 5, Sleep interval])"
    by (simp add: tick_def try_block_def fetch_latest_reading_def handlers_def)
  then show ?thesis by (simp add: split_beta)
qed

text \<open>The collector task is created exactly when the API key and the device identifier
  are not empty; the application key is not looked at.\<close>

lemma lifespan_startup_started:
  "fst (lifespan_startup s) = (awn_api_key s \<noteq> [] \<and> awn_mac_address s \<noteq> [])"
  by (simp add: lifespan_startup_def)

text \<open>
  C6. With the API key and the device identifier set and the application key absent, the
  collector is started, against the claim (and against the warning of the other branch,
  which names the three settings).
\<close>

theorem lifespan_starts_without_application_key:
  "lifespan_startup \<lparr>awn_api_key = ''key'', awn_application_key = '''',
       awn_mac_address = ''AA:BB'', collection_interval_seconds = 60,
       daily_retention_days = 7, database_url = ''sqlite+aiosqlite:///./weather.db''\<rparr>
     = (True, [LogInfo ''Database initialized'', LogInfo ''Data collector started''])"
  by (simp add: lifespan_startup_def)

section \<open>Properties of the aggregates\<close>

lemma fold_fold_concat:
  "fold (\<lambda>x acc. fold f (g x) acc) xs acc0 = fold f (concat (map g xs)) acc0"
  by (induction xs arbitrary: acc0) simp_all

lemma map_of_setdefault_append:
  "map_of (setdefault_append metrics key val) k =
     (if k = key then Some ((case map_of metrics key of None \<Rightarrow> [] | Some vs \<Rightarrow> vs) @ [val])
      else map_of metrics k)"
  by (induction metrics key val rule: setdefault_append.induct) auto

lemma keys_setdefault_append:
  "map fst (setdefault_append metrics key val) =
     (if key \<in> fst ` set metrics then map fst metrics else map fst metrics @ [key])"
  by (induction metrics key val rule: setdefault_append.induct) auto

lemma distinct_setdefault_append:
  "distinct (map fst metrics) \<Longrightarrow> distinct (map fst (setdefault_append metrics key val))"
  by (simp add: keys_setdefault_append)

lemma grouped_distinct:
  "distinct (map fst metrics) \<Longrightarrow>
   distinct (map fst (fold (\<lambda>(key, val) m. setdefault_append m key val) kvs metrics))"
proof (induction kvs arbitrary: metrics)
  case Nil
  then show ?case by simp
next
  case (Cons kv kvs)
  obtain key val where kv: "kv = (key, val)" by (cases kv)
  have "distinct (map fst (setdefault_append metrics key val))"
    using Cons.prems by (rule distinct_setdefault_append)
  then show ?case using Cons.IH kv by simp
qed

lemma grouped_lookup:
  "map_of (fold (\<lambda>(key, val) m. setdefault_append m key val) kvs metrics) k =
       (case map_of metrics k of
          None \<Rightarrow> (if map snd (filter (\<lambda>(k', v). k' = k) kvs) = [] then None
                    else Some (map snd (filter (\<lambda>(k', v). k' = k) kvs)))
        | Some vs \<Rightarrow> Some (vs @ map snd (filter (\<lambda>(k', v). k' = k) kvs)))"
proof (induction kvs arbitrary: metrics)
  case Nil
  then show ?case by (simp split: option.split)
next
  case (Cons kv kvs)
  obtain key val where kv: "kv = (key, val)" by (cases kv)
  show ?case
  proof (cases "k = key")
    case True
    show ?thesis
      unfolding kv using Cons.IH [of "setdefault_append metrics key val"] True
      by (simp add: map_of_setdefault_append split: option.split)
  next
    case False
    then have "key \<noteq> k" by simp
    then show ?thesis
      unfolding kv using Cons.IH [of "setdefault_append metrics key val"] False
      by (simp add: map_of_setdefault_append split: option.split)
  qed
qed

lemma collect_metrics_eq:
  "collect_metrics rows =
     fold (\<lambda>(key, val) m. setdefault_append m key val) (concat (map get_numeric_fields rows)) []"
  unfolding collect_metrics_def by (rule fold_fold_concat)

lemma collect_metrics_distinct: "distinct (map fst (collect_metrics rows))"
  using grouped_distinct [of "[]"] by (simp add: collect_metrics_eq)

lemma collect_metrics_lookup:
  "map_of (collect_metrics rows) k =
     (if contributing_values rows k = [] then None else Some (contributing_values rows k))"
  using grouped_lookup [of "concat (map get_numeric_fields rows)" "[]" k]
  by (simp add: collect_metrics_eq contributing_values_def)

lemma collect_metrics_member:
  "(k, vs) \<in> set (collect_metrics rows) \<longleftrightarrow> vs = contributing_values rows k \<and> vs \<noteq> []"
proof -
  have "(k, vs) \<in> set (collect_metrics rows) \<longleftrightarrow> map_of (collect_metrics rows) k = Some vs"
    by (rule map_of_eq_Some_iff [OF collect_metrics_distinct, symmetric])
  then show ?thesis by (auto simp: collect_metrics_lookup)
qed

lemma fold_min_spec:
  "fold (\<lambda>item cur. if num item < num cur then item else cur) xs x \<in> set (x # xs)
   \<and> (\<forall>z \<in> set (x # xs).
         num (fold (\<lambda>item cur. if num item < num cur then item else cur) xs x) \<le> num z)"
proof (induction xs arbitrary: x)
  case Nil
  then show ?case by simp
next
  case (Cons y ys)
  show ?case using Cons.IH [of y] Cons.IH [of x] by (cases "num y < num x") auto
qed

lemma fold_min_num:
  "num (fold (\<lambda>item cur. if num item < num cur then item else cur) xs x) = Min (num ` set (x # xs))"
proof (rule sym, rule Min_eqI)
  show "finite (num ` set (x # xs))" by simp
  show "num (fold (\<lambda>item cur. if num item < num cur then item else cur) xs x) \<le> y"
    if "y \<in> num ` set (x # xs)" for y
    using that fold_min_spec [of xs x] by blast
  show "num (fold (\<lambda>item cur. if num item < num cur then item else cur) xs x) \<in> num ` set (x # xs)"
    using fold_min_spec [of xs x] by blast
qed

lemma fold_max_spec:
  "fold (\<lambda>item cur. if num cur < num item then item else cur) xs x \<in> set (x # xs)
   \<and> (\<forall>z \<in> set (x # xs).
         num z \<le> num (fold (\<lambda>item cur. if num cur < num item then item else cur) xs x))"
proof (induction xs arbitrary: x)
  case Nil
  then show ?case by simp
next
  case (Cons y ys)
  show ?case using Cons.IH [of y] Cons.IH [of x] by (cases "num x < num y") auto
qed

lemma fold_max_num:
  "num (fold (\<lambda>item cur. if num cur < num item then item else cur) xs x) = Max (num ` set (x # xs))"
proof (rule sym, rule Max_eqI)
  show "finite (num ` set (x # xs))" by simp
  show "y \<le> num (fold (\<lambda>item cur. if num cur < num item then item else cur) xs x)"
    if "y \<in> num ` set (x # xs)" for y
    using that fold_max_spec [of xs x] by blast
  show "num (fold (\<lambda>item cur. if num cur < num item then item else cur) xs x) \<in> num ` set (x # xs)"
    using fold_max_spec [of xs x] by blast
qed

lemma py_sum_eq: "py_sum vs = sum_list (map num vs)"
proof -
  have "fold (\<lambda>item acc. acc + num item) vs a = a + sum_list (map num vs)" for a
    by (induction vs arbitrary: a) (simp_all add: add.assoc)
  then show ?thesis by (simp add: py_sum_def)
qed

lemma statistics_eq:
  "vs \<noteq> [] \<Longrightarrow>
   statistics vs = Inr (Min (num ` set vs), Max (num ` set vs),
                        py_round (sum_list (map num vs) / of_nat (length vs)) 2, length vs)"
proof (cases vs)
  case Nil
  then show "vs \<noteq> [] \<Longrightarrow> ?thesis" by simp
next
  case (Cons x xs)
  then show ?thesis
    using fold_min_num [of xs x] fold_max_num [of xs x]
    by (simp add: statistics_def py_sum_eq)
qed

lemma distinct_map_filter_le:
  "distinct (map f xs) \<longleftrightarrow> (\<forall>k. length (filter (\<lambda>x. f x = k) xs) \<le> 1)"
proof (induction xs)
  case Nil
  then show ?case by simp
next
  case (Cons x xs)
  show ?case
  proof
    assume d: "distinct (map f (x # xs))"
    then have "f x \<notin> f ` set xs" by simp
    then have "filter (\<lambda>y. f y = f x) xs = []"
      unfolding filter_empty_conv by (metis imageI)
    then show "\<forall>k. length (filter (\<lambda>x. f x = k) (x # xs)) \<le> 1"
      using d Cons.IH by auto
  next
    assume a: "\<forall>k. length (filter (\<lambda>x. f x = k) (x # xs)) \<le> 1"
    then have "length (filter (\<lambda>y. f y = f x) (x # xs)) \<le> 1" by blast
    then have "filter (\<lambda>y. f y = f x) xs = []" by simp
    then have n: "f x \<notin> f ` set xs" by (auto simp: filter_empty_conv)
    have "length (filter (\<lambda>x. f x = k) xs) \<le> 1" for k
      using a [rule_format, of k] by (simp split: if_splits)
    then have "distinct (map f xs)" using Cons.IH by blast
    then show "distinct (map f (x # xs))" using n by simp
  qed
qed

lemma ma_matches_key: "ma_matches mac y m name a \<longleftrightarrow> ma_key a = (mac, y, m, name)"
  by (auto simp: ma_matches_def ma_key_def)

lemma monthly_unique_iff:
  "monthly_unique table \<longleftrightarrow>
     (\<forall>mac y m name. length (filter (ma_matches mac y m name) table) \<le> 1)"
  unfolding monthly_unique_def distinct_map_filter_le [of ma_key table] ma_matches_key [abs_def]
  by simp

lemma filter_map_if_same:
  assumes "\<And>x. P (f x) = P x"
  shows "filter P (map (\<lambda>x. if P x then f x else x) xs) = map f (filter P xs)"
  by (induction xs) (simp_all add: assms)

lemma filter_map_if_other:
  assumes "\<And>x. Q (f x) = Q x" and "\<And>x. P x \<Longrightarrow> \<not> Q x"
  shows "filter Q (map (\<lambda>x. if P x then f x else x) xs) = filter Q xs"
  using assms by (induction xs) auto

lemma ma_matches_update [simp]:
  "ma_matches mac y m name (a\<lparr>ma_min_value := lo, ma_max_value := hi, ma_avg_value := avg,
                                ma_count := n\<rparr>) = ma_matches mac y m name a"
  by (simp add: ma_matches_def)

lemma upsert_monthly_eq:
  assumes "length (filter (ma_matches mac y m name) table) \<le> 1"
    and "statistics vs = Inr (lo, hi, avg, n)"
  shows "upsert_monthly mac y m table name vs =
     Inr (if filter (ma_matches mac y m name) table = []
          then table @ [\<lparr>ma_id = fresh_id (map ma_id table), ma_mac_address = mac,
                          ma_year = y, ma_month = m, ma_metric_name = name,
                          ma_min_value = lo, ma_max_value = hi, ma_avg_value = avg,
                          ma_count = n\<rparr>]
          else map (\<lambda>a. if ma_matches mac y m name a
                         then a\<lparr>ma_min_value := lo, ma_max_value := hi,
                                ma_avg_value := avg, ma_count := n\<rparr>
                         else a) table)"
proof (cases "filter (ma_matches mac y m name) table")
  case Nil
  then show ?thesis using assms(2) by (simp add: upsert_monthly_def)
next
  case (Cons a rest)
  then have "rest = []" using assms(1) by simp
  then show ?thesis using Cons assms(2) by (simp add: upsert_monthly_def)
qed

lemma upsert_monthly_effect:
  assumes uniq: "monthly_unique table" and st: "statistics vs = Inr st"
  shows "\<exists>table'. upsert_monthly mac y m table name vs = Inr table'
      \<and> (\<exists>a. filter (ma_matches mac y m name) table' = [a] \<and> ma_statistics a = st)
      \<and> (\<forall>mac' y' m' name'. (mac', y', m', name') \<noteq> (mac, y, m, name) \<longrightarrow>
            filter (ma_matches mac' y' m' name') table' = filter (ma_matches mac' y' m' name') table)
      \<and> monthly_unique table'"
proof -
  obtain lo hi avg n where st': "st = (lo, hi, avg, n)" by (cases st)
  let ?P = "ma_matches mac y m name"
  let ?new = "\<lparr>ma_id = fresh_id (map ma_id table), ma_mac_address = mac,
                          ma_year = y, ma_month = m, ma_metric_name = name,
                          ma_min_value = lo, ma_max_value = hi, ma_avg_value = avg,
                          ma_count = n\<rparr>"
  let ?upd = "\<lambda>a. a\<lparr>ma_min_value := lo, ma_max_value := hi, ma_avg_value := avg, ma_count := n\<rparr>"
  define table' where "table' = (if filter ?P table = [] then table @ [?new]
                                  else map (\<lambda>a. if ?P a then ?upd a else a) table)"
  have le: "length (filter ?P table) \<le> 1" using uniq monthly_unique_iff by blast
  have eq: "upsert_monthly mac y m table name vs = Inr table'"
    using upsert_monthly_eq [OF le] st st' unfolding table'_def by simp
  have own: "\<exists>a. filter ?P table' = [a] \<and> ma_statistics a = st"
  proof (cases "filter ?P table")
    case Nil
    then show ?thesis by (simp add: table'_def ma_matches_def ma_statistics_def st')
  next
    case (Cons a rest)
    then have rest: "rest = []" using le by simp
    have "filter ?P (map (\<lambda>a. if ?P a then ?upd a else a) table) = map ?upd (filter ?P table)"
      by (rule filter_map_if_same) simp
    then show ?thesis using Cons rest by (simp add: table'_def ma_statistics_def st')
  qed
  have other: "filter (ma_matches mac' y' m' name') table' = filter (ma_matches mac' y' m' name') table"
    if ne: "(mac', y', m', name') \<noteq> (mac, y, m, name)" for mac' y' m' name'
  proof (cases "filter ?P table = []")
    case True
    then show ?thesis using ne by (auto simp: table'_def ma_matches_def)
  next
    case False
    have "filter (ma_matches mac' y' m' name') (map (\<lambda>a. if ?P a then ?upd a else a) table)
            = filter (ma_matches mac' y' m' name') table"
    proof (rule filter_map_if_other)
      show "ma_matches mac' y' m' name' (?upd x) = ma_matches mac' y' m' name' x" for x by simp
      show "?P x \<Longrightarrow> \<not> ma_matches mac' y' m' name' x" for x
        using ne by (auto simp: ma_matches_def)
    qed
    then show ?thesis using False by (simp add: table'_def)
  qed
  have "monthly_unique table'"
    unfolding monthly_unique_iff
  proof (intro allI)
    fix mac' y' m' name'
    show "length (filter (ma_matches mac' y' m' name') table') \<le> 1"
    proof (cases "(mac', y', m', name') = (mac, y, m, name)")
      case True
      then show ?thesis using own by auto
    next
      case False
      have "length (filter (ma_matches mac' y' m' name') table) \<le> 1"
        using uniq monthly_unique_iff by blast
      then show ?thesis using other [OF False] by simp
    qed
  qed
  then show ?thesis using eq own other by blast
qed

lemma upsert_monthly_loop_effect:
  assumes "monthly_unique table" and "distinct (map fst metrics)"
    and "\<forall>(name, vs) \<in> set metrics. vs \<noteq> []"
  shows "\<exists>table'. upsert_monthly_loop mac y m table metrics = Inr table'
      \<and> monthly_unique table'
      \<and> (\<forall>(name, vs) \<in> set metrics.
            \<exists>a. filter (ma_matches mac y m name) table' = [a]
                \<and> statistics vs = Inr (ma_statistics a))
      \<and> (\<forall>mac' y' m' name'.
            \<not> (mac' = mac \<and> y' = y \<and> m' = m \<and> name' \<in> fst ` set metrics) \<longrightarrow>
            filter (ma_matches mac' y' m' name') table' = filter (ma_matches mac' y' m' name') table)"
  using assms
proof (induction metrics arbitrary: table)
  case Nil
  then show ?case by simp
next
  case (Cons nv metrics)
  obtain name vs where nv: "nv = (name, vs)" by (cases nv)
  have ne: "vs \<noteq> []" using Cons.prems(3) nv by simp
  then obtain st where st: "statistics vs = Inr st" using statistics_eq by blast
  from upsert_monthly_effect [OF Cons.prems(1) st, of mac y m name]
  obtain table1 a where t1: "upsert_monthly mac y m table name vs = Inr table1"
    and a: "filter (ma_matches mac y m name) table1 = [a]" "ma_statistics a = st"
    and other1: "\<And>mac' y' m' name'. (mac', y', m', name') \<noteq> (mac, y, m, name) \<Longrightarrow>
            filter (ma_matches mac' y' m' name') table1 = filter (ma_matches mac' y' m' name') table"
    and u1: "monthly_unique table1"
    by blast
  have d: "distinct (map fst metrics)" and fresh: "name \<notin> fst ` set metrics"
    using Cons.prems(2) nv by simp_all
  have nonempty: "\<forall>(name, vs) \<in> set metrics. vs \<noteq> []" using Cons.prems(3) by simp
  from Cons.IH [OF u1 d nonempty]
  obtain table' where t': "upsert_monthly_loop mac y m table1 metrics = Inr table'"
    and u': "monthly_unique table'"
    and rows': "\<forall>(name, vs) \<in> set metrics.
            \<exists>a. filter (ma_matches mac y m name) table' = [a]
                \<and> statistics vs = Inr (ma_statistics a)"
    and other': "\<And>mac' y' m' name'.
            \<not> (mac' = mac \<and> y' = y \<and> m' = m \<and> name' \<in> fst ` set metrics) \<Longrightarrow>
            filter (ma_matches mac' y' m' name') table' = filter (ma_matches mac' y' m' name') table1"
    by blast
  have run: "upsert_monthly_loop mac y m table (nv # metrics) = Inr table'"
    using t1 t' nv by simp
  have head: "\<exists>a. filter (ma_matches mac y m name) table' = [a]
                \<and> statistics vs = Inr (ma_statistics a)"
    using other' [of mac y m name] fresh a st by simp
  have frame: "filter (ma_matches mac' y' m' name') table' = filter (ma_matches mac' y' m' name') table"
    if "\<not> (mac' = mac \<and> y' = y \<and> m' = m \<and> name' \<in> fst ` set (nv # metrics))"
    for mac' y' m' name'
  proof -
    have "\<not> (mac' = mac \<and> y' = y \<and> m' = m \<and> name' \<in> fst ` set metrics)"
      and "(mac', y', m', name') \<noteq> (mac, y, m, name)"
      using that nv by auto
    then show ?thesis using other' other1 by simp
  qed
  show ?case using run u' head rows' frame nv by auto
qed

lemma upsert_monthly_same:
  assumes "filter (ma_matches mac y m name) table = [a]"
    and "statistics vs = Inr (ma_statistics a)"
  shows "upsert_monthly mac y m table name vs = Inr table"
proof -
  have "x = a" if "x \<in> set table" "ma_matches mac y m name x" for x
  proof -
    have "x \<in> set (filter (ma_matches mac y m name) table)" using that by simp
    then show ?thesis using assms(1) by simp
  qed
  then have "map (\<lambda>x. if ma_matches mac y m name x
                       then x\<lparr>ma_min_value := ma_min_value a, ma_max_value := ma_max_value a,
                              ma_avg_value := ma_avg_value a, ma_count := ma_count a\<rparr>
                       else x) table = table"
    by (intro map_idI) auto
  then show ?thesis using assms by (simp add: upsert_monthly_def ma_statistics_def)
qed

lemma upsert_monthly_loop_same:
  assumes "\<forall>(name, vs) \<in> set metrics.
            \<exists>a. filter (ma_matches mac y m name) table = [a]
                \<and> statistics vs = Inr (ma_statistics a)"
  shows "upsert_monthly_loop mac y m table metrics = Inr table"
  using assms
proof (induction metrics)
  case Nil
  then show ?case by simp
next
  case (Cons nv metrics)
  obtain name vs where nv: "nv = (name, vs)" by (cases nv)
  obtain a where "filter (ma_matches mac y m name) table = [a]"
    "statistics vs = Inr (ma_statistics a)"
    using Cons.prems nv by auto
  then have "upsert_monthly mac y m table name vs = Inr table" by (rule upsert_monthly_same)
  then show ?case using Cons nv by simp
qed

lemma update_monthly_effect:
  assumes uniq: "monthly_unique (monthly_aggregates db)"
  shows "\<exists>db'. update_monthly_aggregates mac ts db = Inr db'
      \<and> daily_readings db' = daily_readings db
      \<and> yearly_aggregates db' = yearly_aggregates db
      \<and> monthly_unique (monthly_aggregates db')
      \<and> (\<forall>name. contributing_values (monthly_rows mac ts db) name \<noteq> [] \<longrightarrow>
            (\<exists>a. filter (ma_matches mac (dt_year ts) (dt_month ts) name) (monthly_aggregates db') = [a]
                \<and> statistics (contributing_values (monthly_rows mac ts db) name)
                    = Inr (ma_statistics a)))
      \<and> (\<forall>mac' y' m' name'.
            \<not> (mac' = mac \<and> y' = dt_year ts \<and> m' = dt_month ts
               \<and> contributing_values (monthly_rows mac ts db) name' \<noteq> []) \<longrightarrow>
            filter (ma_matches mac' y' m' name') (monthly_aggregates db')
              = filter (ma_matches mac' y' m' name') (monthly_aggregates db))
      \<and> update_monthly_aggregates mac ts db' = Inr db'"
proof (cases "monthly_rows mac ts db = []")
  case True
  then have "contributing_values (monthly_rows mac ts db) name = []" for name
    by (simp add: contributing_values_def)
  then show ?thesis using True uniq by (simp add: update_monthly_aggregates_def)
next
  case False
  let ?rows = "monthly_rows mac ts db"
  let ?metrics = "collect_metrics ?rows"
  have names: "name \<in> fst ` set ?metrics \<longleftrightarrow> contributing_values ?rows name \<noteq> []" for name
    using map_of_eq_None_iff [of ?metrics name] collect_metrics_lookup [of ?rows name]
    by (simp split: if_splits)
  have nonempty: "\<forall>(name, vs) \<in> set ?metrics. vs \<noteq> []"
  proof (intro ballI, unfold split_paired_all, simp only: prod.case)
    fix name vs
    assume "(name, vs) \<in> set ?metrics"
    then show "vs \<noteq> []" unfolding collect_metrics_member by blast
  qed
  from upsert_monthly_loop_effect [OF uniq collect_metrics_distinct nonempty,
      of mac "dt_year ts" "dt_month ts"]
  obtain table' where run: "upsert_monthly_loop mac (dt_year ts) (dt_month ts)
        (monthly_aggregates db) ?metrics = Inr table'"
    and u': "monthly_unique table'"
    and rows': "\<forall>(name, vs) \<in> set ?metrics.
            \<exists>a. filter (ma_matches mac (dt_year ts) (dt_month ts) name) table' = [a]
                \<and> statistics vs = Inr (ma_statistics a)"
    and frame: "\<And>mac' y' m' name'.
            \<not> (mac' = mac \<and> y' = dt_year ts \<and> m' = dt_month ts \<and> name' \<in> fst ` set ?metrics) \<Longrightarrow>
            filter (ma_matches mac' y' m' name') table'
              = filter (ma_matches mac' y' m' name') (monthly_aggregates db)"
    by blast
  let ?db' = "db\<lparr>monthly_aggregates := table'\<rparr>"
  have upd: "update_monthly_aggregates mac ts db = Inr ?db'"
    using False run by (simp add: update_monthly_aggregates_def)
  have rows_same: "monthly_rows mac ts ?db' = ?rows" by (simp add: monthly_rows_def)
  have again: "upsert_monthly_loop mac (dt_year ts) (dt_month ts) table' ?metrics = Inr table'"
    using rows' by (rule upsert_monthly_loop_same)
  have idem: "update_monthly_aggregates mac ts ?db' = Inr ?db'"
    using False again by (simp add: update_monthly_aggregates_def rows_same)
  have stats: "\<exists>a. filter (ma_matches mac (dt_year ts) (dt_month ts) name) table' = [a]
                \<and> statistics (contributing_values ?rows name) = Inr (ma_statistics a)"
    if "contributing_values ?rows name \<noteq> []" for name
  proof -
    have "(name, contributing_values ?rows name) \<in> set ?metrics"
      using that by (simp add: collect_metrics_member)
    then show ?thesis using rows' by blast
  qed
  have frame': "filter (ma_matches mac' y' m' name') table'
              = filter (ma_matches mac' y' m' name') (monthly_aggregates db)"
    if "\<not> (mac' = mac \<and> y' = dt_year ts \<and> m' = dt_month ts
               \<and> contributing_values ?rows name' \<noteq> [])" for mac' y' m' name'
    using frame [of mac' y' m' name'] that names by blast
  show ?thesis
  proof (intro exI [of _ ?db'] conjI allI impI)
    show "update_monthly_aggregates mac ts db = Inr ?db'" by (rule upd)
    show "daily_readings ?db' = daily_readings db" by simp
    show "yearly_aggregates ?db' = yearly_aggregates db" by simp
    show "monthly_unique (monthly_aggregates ?db')" using u' by simp
    show "\<exists>a. filter (ma_matches mac (dt_year ts) (dt_month ts) name) (monthly_aggregates ?db') = [a]
                \<and> statistics (contributing_values ?rows name) = Inr (ma_statistics a)"
      if "contributing_values ?rows name \<noteq> []" for name
      using stats [OF that] by simp
    show "filter (ma_matches mac' y' m' name') (monthly_aggregates ?db')
              = filter (ma_matches mac' y' m' name') (monthly_aggregates db)"
      if "\<not> (mac' = mac \<and> y' = dt_year ts \<and> m' = dt_month ts
               \<and> contributing_values ?rows name' \<noteq> [])" for mac' y' m' name'
      using frame' [OF that] by simp
    show "update_monthly_aggregates mac ts ?db' = Inr ?db'" by (rule idem)
  qed
qed

lemma ya_matches_key: "ya_matches mac y name a \<longleftrightarrow> ya_key a = (mac, y, name)"
  by (auto simp: ya_matches_def ya_key_def)

lemma yearly_unique_iff:
  "yearly_unique table \<longleftrightarrow>
     (\<forall>mac y name. length (filter (ya_matches mac y name) table) \<le> 1)"
  unfolding yearly_unique_def distinct_map_filter_le [of ya_key table] ya_matches_key [abs_def]
  by simp

lemma ya_matches_update [simp]:
  "ya_matches mac y name (a\<lparr>ya_min_value := lo, ya_max_value := hi, ya_avg_value := avg,
                                ya_count := n\<rparr>) = ya_matches mac y name a"
  by (simp add: ya_matches_def)

lemma upsert_yearly_eq:
  assumes "length (filter (ya_matches mac y name) table) \<le> 1"
    and "statistics vs = Inr (lo, hi, avg, n)"
  shows "upsert_yearly mac y table name vs =
     Inr (if filter (ya_matches mac y name) table = []
          then table @ [\<lparr>ya_id = fresh_id (map ya_id table), ya_mac_address = mac,
                          ya_year = y, ya_metric_name = name,
                          ya_min_value = lo, ya_max_value = hi, ya_avg_value = avg,
                          ya_count = n\<rparr>]
          else map (\<lambda>a. if ya_matches mac y name a
                         then a\<lparr>ya_min_value := lo, ya_max_value := hi,
                                ya_avg_value := avg, ya_count := n\<rparr>
                         else a) table)"
proof (cases "filter (ya_matches mac y name) table")
  case Nil
  then show ?thesis using assms(2) by (simp add: upsert_yearly_def)
next
  case (Cons a rest)
  then have "rest = []" using assms(1) by simp
  then show ?thesis using Cons assms(2) by (simp add: upsert_yearly_def)
qed

lemma upsert_yearly_effect:
  assumes uniq: "yearly_unique table" and st: "statistics vs = Inr st"
  shows "\<exists>table'. upsert_yearly mac y table name vs = Inr table'
      \<and> (\<exists>a. filter (ya_matches mac y name) table' = [a] \<and> ya_statistics a = st)
      \<and> (\<forall>mac' y' name'. (mac', y', name') \<noteq> (mac, y, name) \<longrightarrow>
            filter (ya_matches mac' y' name') table' = filter (ya_matches mac' y' name') table)
      \<and> yearly_unique table'"
proof -
  obtain lo hi avg n where st': "st = (lo, hi, avg, n)" by (cases st)
  let ?P = "ya_matches mac y name"
  let ?new = "\<lparr>ya_id = fresh_id (map ya_id table), ya_mac_address = mac,
                          ya_year = y, ya_metric_name = name,
                          ya_min_value = lo, ya_max_value = hi, ya_avg_value = avg,
                          ya_count = n\<rparr>"
  let ?upd = "\<lambda>a. a\<lparr>ya_min_value := lo, ya_max_value := hi, ya_avg_value := avg, ya_count := n\<rparr>"
  define table' where "table' = (if filter ?P table = [] then table @ [?new]
                                  else map (\<lambda>a. if ?P a then ?upd a else a) table)"
  have le: "length (filter ?P table) \<le> 1" using uniq yearly_unique_iff by blast
  have eq: "upsert_yearly mac y table name vs = Inr table'"
    using upsert_yearly_eq [OF le] st st' unfolding table'_def by simp
  have own: "\<exists>a. filter ?P table' = [a] \<and> ya_statistics a = st"
  proof (cases "filter ?P table")
    case Nil
    then show ?thesis by (simp add: table'_def ya_matches_def ya_statistics_def st')
  next
    case (Cons a rest)
    then have rest: "rest = []" using le by simp
    have "filter ?P (map (\<lambda>a. if ?P a then ?upd a else a) table) = map ?upd (filter ?P table)"
      by (rule filter_map_if_same) simp
    then show ?thesis using Cons rest by (simp add: table'_def ya_statistics_def st')
  qed
  have other: "filter (ya_matches mac' y' name') table' = filter (ya_matches mac' y' name') table"
    if ne: "(mac', y', name') \<noteq> (mac, y, name)" for mac' y' name'
  proof (cases "filter ?P table = []")
    case True
    then show ?thesis using ne by (auto simp: table'_def ya_matches_def)
  next
    case False
    have "filter (ya_matches mac' y' name') (map (\<lambda>a. if ?P a then ?upd a else a) table)
            = filter (ya_matches mac' y' name') table"
    proof (rule filter_map_if_other)
      show "ya_matches mac' y' name' (?upd x) = ya_matches mac' y' name' x" for x by simp
      show "?P x \<Longrightarrow> \<not> ya_matches mac' y' name' x" for x
        using ne by (auto simp: ya_matches_def)
    qed
    then show ?thesis using False by (simp add: table'_def)
  qed
  have "yearly_unique table'"
    unfolding yearly_unique_iff
  proof (intro allI)
    fix mac' y' name'
    show "length (filter (ya_matches mac' y' name') table') \<le> 1"
    proof (cases "(mac', y', name') = (mac, y, name)")
      case True
      then show ?thesis using own by auto
    next
      case False
      have "length (filter (ya_matches mac' y' name') table) \<le> 1"
        using uniq yearly_unique_iff by blast
      then show ?thesis using other [OF False] by simp
    qed
  qed
  then show ?thesis using eq own other by blast
qed

lemma upsert_yearly_loop_effect:
  assumes "yearly_unique table" and "distinct (map fst metrics)"
    and "\<forall>(name, vs) \<in> set metrics. vs \<noteq> []"
  shows "\<exists>table'. upsert_yearly_loop mac y table metrics = Inr table'
      \<and> yearly_unique table'
      \<and> (\<forall>(name, vs) \<in> set metrics.
            \<exists>a. filter (ya_matches mac y name) table' = [a]
                \<and> statistics vs = Inr (ya_statistics a))
      \<and> (\<forall>mac' y' name'.
            \<not> (mac' = mac \<and> y' = y \<and> name' \<in> fst ` set metrics) \<longrightarrow>
            filter (ya_matches mac' y' name') table' = filter (ya_matches mac' y' name') table)"
  using assms
proof (induction metrics arbitrary: table)
  case Nil
  then show ?case by simp
next
  case (Cons nv metrics)
  obtain name vs where nv: "nv = (name, vs)" by (cases nv)
  have ne: "vs \<noteq> []" using Cons.prems(3) nv by simp
  then obtain st where st: "statistics vs = Inr st" using statistics_eq by blast
  from upsert_yearly_effect [OF Cons.prems(1) st, of mac y name]
  obtain table1 a where t1: "upsert_yearly mac y table name vs = Inr table1"
    and a: "filter (ya_matches mac y name) table1 = [a]" "ya_statistics a = st"
    and other1: "\<And>mac' y' name'. (mac', y', name') \<noteq> (mac, y, name) \<Longrightarrow>
            filter (ya_matches mac' y' name') table1 = filter (ya_matches mac' y' name') table"
    and u1: "yearly_unique table1"
    by blast
  have d: "distinct (map fst metrics)" and fresh: "name \<notin> fst ` set metrics"
    using Cons.prems(2) nv by simp_all
  have nonempty: "\<forall>(name, vs) \<in> set metrics. vs \<noteq> []" using Cons.prems(3) by simp
  from Cons.IH [OF u1 d nonempty]
  obtain table' where t': "upsert_yearly_loop mac y table1 metrics = Inr table'"
    and u': "yearly_unique table'"
    and rows': "\<forall>(name, vs) \<in> set metrics.
            \<exists>a. filter (ya_matches mac y name) table' = [a]
                \<and> statistics vs = Inr (ya_statistics a)"
    and other': "\<And>mac' y' name'.
            \<not> (mac' = mac \<and> y' = y \<and> name' \<in> fst ` set metrics) \<Longrightarrow>
            filter (ya_matches mac' y' name') table' = filter (ya_matches mac' y' name') table1"
    by blast
  have run: "upsert_yearly_loop mac y table (nv # metrics) = Inr table'"
    using t1 t' nv by simp
  have head: "\<exists>a. filter (ya_matches mac y name) table' = [a]
                \<and> statistics vs = Inr (ya_statistics a)"
    using other' [of mac y name] fresh a st by simp
  have frame: "filter (ya_matches mac' y' name') table' = filter (ya_matches mac' y' name') table"
    if "\<not> (mac' = mac \<and> y' = y \<and> name' \<in> fst ` set (nv # metrics))"
    for mac' y' name'
  proof -
    have "\<not> (mac' = mac \<and> y' = y \<and> name' \<in> fst ` set metrics)"
      and "(mac', y', name') \<noteq> (mac, y, name)"
      using that nv by auto
    then show ?thesis using other' other1 by simp
  qed
  show ?case using run u' head rows' frame nv by auto
qed

lemma upsert_yearly_same:
  assumes "filter (ya_matches mac y name) table = [a]"
    and "statistics vs = Inr (ya_statistics a)"
  shows "upsert_yearly mac y table name vs = Inr table"
proof -
  have "x = a" if "x \<in> set table" "ya_matches mac y name x" for x
  proof -
    have "x \<in> set (filter (ya_matches mac y name) table)" using that by simp
    then show ?thesis using assms(1) by simp
  qed
  then have "map (\<lambda>x. if ya_matches mac y name x
                       then x\<lparr>ya_min_value := ya_min_value a, ya_max_value := ya_max_value a,
                              ya_avg_value := ya_avg_value a, ya_count := ya_count a\<rparr>
                       else x) table = table"
    by (intro map_idI) auto
  then show ?thesis using assms by (simp add: upsert_yearly_def ya_statistics_def)
qed

lemma upsert_yearly_loop_same:
  assumes "\<forall>(name, vs) \<in> set metrics.
            \<exists>a. filter (ya_matches mac y name) table = [a]
                \<and> statistics vs = Inr (ya_statistics a)"
  shows "upsert_yearly_loop mac y table metrics = Inr table"
  using assms
proof (induction metrics)
  case Nil
  then show ?case by simp
next
  case (Cons nv metrics)
  obtain name vs where nv: "nv = (name, vs)" by (cases nv)
  obtain a where "filter (ya_matches mac y name) table = [a]"
    "statistics vs = Inr (ya_statistics a)"
    using Cons.prems nv by auto
  then have "upsert_yearly mac y table name vs = Inr table" by (rule upsert_yearly_same)
  then show ?case using Cons nv by simp
qed

lemma update_yearly_effect:
  assumes uniq: "yearly_unique (yearly_aggregates db)"
  shows "\<exists>db'. update_yearly_aggregates mac ts db = Inr db'
      \<and> daily_readings db' = daily_readings db
      \<and> monthly_aggregates db' = monthly_aggregates db
      \<and> yearly_unique (yearly_aggregates db')
      \<and> (\<forall>name. contributing_values (yearly_rows mac ts db) name \<noteq> [] \<longrightarrow>
            (\<exists>a. filter (ya_matches mac (dt_year ts) name) (yearly_aggregates db') = [a]
                \<and> statistics (contributing_values (yearly_rows mac ts db) name)
                    = Inr (ya_statistics a)))
      \<and> (\<forall>mac' y' name'.
            \<not> (mac' = mac \<and> y' = dt_year ts
               \<and> contributing_values (yearly_rows mac ts db) name' \<noteq> []) \<longrightarrow>
            filter (ya_matches mac' y' name') (yearly_aggregates db')
              = filter (ya_matches mac' y' name') (yearly_aggregates db))
      \<and> update_yearly_aggregates mac ts db' = Inr db'"
proof (cases "yearly_rows mac ts db = []")
  case True
  then have "contributing_values (yearly_rows mac ts db) name = []" for name
    by (simp add: contributing_values_def)
  then show ?thesis using True uniq by (simp add: update_yearly_aggregates_def)
next
  case False
  let ?rows = "yearly_rows mac ts db"
  let ?metrics = "collect_metrics ?rows"
  have names: "name \<in> fst ` set ?metrics \<longleftrightarrow> contributing_values ?rows name \<noteq> []" for name
    using map_of_eq_None_iff [of ?metrics name] collect_metrics_lookup [of ?rows name]
    by (simp split: if_splits)
  have nonempty: "\<forall>(name, vs) \<in> set ?metrics. vs \<noteq> []"
  proof (intro ballI, unfold split_paired_all, simp only: prod.case)
    fix name vs
    assume "(name, vs) \<in> set ?metrics"
    then show "vs \<noteq> []" unfolding collect_metrics_member by blast
  qed
  from upsert_yearly_loop_effect [OF uniq collect_metrics_distinct nonempty,
      of mac "dt_year ts"]
  obtain table' where run: "upsert_yearly_loop mac (dt_year ts)
        (yearly_aggregates db) ?metrics = Inr table'"
    and u': "yearly_unique table'"
    and rows': "\<forall>(name, vs) \<in> set ?metrics.
            \<exists>a. filter (ya_matches mac (dt_year ts) name) table' = [a]
                \<and> statistics vs = Inr (ya_statistics a)"
    and frame: "\<And>mac' y' name'.
            \<not> (mac' = mac \<and> y' = dt_year ts \<and> name' \<in> fst ` set ?metrics) \<Longrightarrow>
            filter (ya_matches mac' y' name') table'
              = filter (ya_matches mac' y' name') (yearly_aggregates db)"
    by blast
  let ?db' = "db\<lparr>yearly_aggregates := table'\<rparr>"
  have upd: "update_yearly_aggregates mac ts db = Inr ?db'"
    using False run by (simp add: update_yearly_aggregates_def)
  have rows_same: "yearly_rows mac ts ?db' = ?rows" by (simp add: yearly_rows_def)
  have again: "upsert_yearly_loop mac (dt_year ts) table' ?metrics = Inr table'"
    using rows' by (rule upsert_yearly_loop_same)
  have idem: "update_yearly_aggregates mac ts ?db' = Inr ?db'"
    using False again by (simp add: update_yearly_aggregates_def rows_same)
  have stats: "\<exists>a. filter (ya_matches mac (dt_year ts) name) table' = [a]
                \<and> statistics (contributing_values ?rows name) = Inr (ya_statistics a)"
    if "contributing_values ?rows name \<noteq> []" for name
  proof -
    have "(name, contributing_values ?rows name) \<in> set ?metrics"
      using that by (simp add: collect_metrics_member)
    then show ?thesis using rows' by blast
  qed
  have frame': "filter (ya_matches mac' y' name') table'
              = filter (ya_matches mac' y' name') (yearly_aggregates db)"
    if "\<not> (mac' = mac \<and> y' = dt_year ts
               \<and> contributing_values ?rows name' \<noteq> [])" for mac' y' name'
    using frame [of mac' y' name'] that names by blast
  show ?thesis
  proof (intro exI [of _ ?db'] conjI allI impI)
    show "update_yearly_aggregates mac ts db = Inr ?db'" by (rule upd)
    show "daily_readings ?db' = daily_readings db" by simp
    show "monthly_aggregates ?db' = monthly_aggregates db" by simp
    show "yearly_unique (yearly_aggregates ?db')" using u' by simp
    show "\<exists>a. filter (ya_matches mac (dt_year ts) name) (yearly_aggregates ?db') = [a]
                \<and> statistics (contributing_values ?rows name) = Inr (ya_statistics a)"
      if "contributing_values ?rows name \<noteq> []" for name
      using stats [OF that] by simp
    show "filter (ya_matches mac' y' name') (yearly_aggregates ?db')
              = filter (ya_matches mac' y' name') (yearly_aggregates db)"
      if "\<not> (mac' = mac \<and> y' = dt_year ts
               \<and> contributing_values ?rows name' \<noteq> [])" for mac' y' name'
      using frame' [OF that] by simp
    show "update_yearly_aggregates mac ts ?db' = Inr ?db'" by (rule idem)
  qed
qed


lemma reachable_db_unique:
  "reachable_db db \<Longrightarrow>
     monthly_unique (monthly_aggregates db) \<and> yearly_unique (yearly_aggregates db)"
proof (induction rule: reachable_db.induct)
  case rd_init
  then show ?case by (simp add: init_db_def monthly_unique_def yearly_unique_def)
next
  case (rd_store db converted mac now)
  then show ?case by (simp add: store_daily_reading_def Let_def)
next
  case (rd_monthly db mac ts db')
  then have u: "monthly_unique (monthly_aggregates db)" by simp
  from update_monthly_effect [OF u, of mac ts] rd_monthly(2)
  show ?case using rd_monthly.IH by auto
next
  case (rd_yearly db mac ts db')
  then have u: "yearly_unique (yearly_aggregates db)" by simp
  from update_yearly_effect [OF u, of mac ts] rd_yearly(2)
  show ?case using rd_yearly.IH by auto
next
  case (rd_purge db mac cutoff)
  then show ?case by (simp add: purge_old_readings_def Let_def)
qed



text \<open>
  C3. In every state the store can reach from the empty tables by storing, recomputing
  and purging, at most one aggregate row exists per device, period key and metric name
  (monthly and yearly), and recomputing a period a second time over the same readings
  returns the state the first recomputation produced: the rows are identical.
\<close>

theorem recompute_idempotent_unique:
  "reachable_db db \<longrightarrow>
     (\<forall>mac y m name. length (filter (ma_matches mac y m name) (monthly_aggregates db)) \<le> 1)
   \<and> (\<forall>mac y name. length (filter (ya_matches mac y name) (yearly_aggregates db)) \<le> 1)
   \<and> (\<exists>db'. update_monthly_aggregates mac ts db = Inr db'
            \<and> update_monthly_aggregates mac ts db' = Inr db')
   \<and> (\<exists>db'. update_yearly_aggregates mac ts db = Inr db'
            \<and> update_yearly_aggregates mac ts db' = Inr db')"
proof
  assume r: "reachable_db db"
  have um: "monthly_unique (monthly_aggregates db)" and uy: "yearly_unique (yearly_aggregates db)"
    using reachable_db_unique [OF r] by simp_all
  have "\<exists>db'. update_monthly_aggregates mac ts db = Inr db'
            \<and> update_monthly_aggregates mac ts db' = Inr db'"
    using update_monthly_effect [OF um, of mac ts] by blast
  moreover have "\<exists>db'. update_yearly_aggregates mac ts db = Inr db'
            \<and> update_yearly_aggregates mac ts db' = Inr db'"
    using update_yearly_effect [OF uy, of mac ts] by blast
  ultimately show "(\<forall>mac y m name. length (filter (ma_matches mac y m name) (monthly_aggregates db)) \<le> 1)
   \<and> (\<forall>mac y name. length (filter (ya_matches mac y name) (yearly_aggregates db)) \<le> 1)
   \<and> (\<exists>db'. update_monthly_aggregates mac ts db = Inr db'
            \<and> update_monthly_aggregates mac ts db' = Inr db')
   \<and> (\<exists>db'. update_yearly_aggregates mac ts db = Inr db'
            \<and> update_yearly_aggregates mac ts db' = Inr db')"
    using um uy unfolding monthly_unique_iff yearly_unique_iff by blast
qed

theorem recompute_idempotent_unique_witness:
  "reachable_db (snd (store_daily_reading [(''temp_c'', VFloat (2222 / 100))] ''AA:BB''
                       \<lparr>dt_year = 2024, dt_month = 5, dt_day = 17, dt_hour = 12, dt_minute = 0, dt_second = 0, dt_microsecond = 0\<rparr> init_db))
   \<and> (\<exists>db'. update_monthly_aggregates ''AA:BB'' \<lparr>dt_year = 2024, dt_month = 5, dt_day = 17, dt_hour = 12, dt_minute = 0, dt_second = 0, dt_microsecond = 0\<rparr>
               (snd (store_daily_reading [(''temp_c'', VFloat (2222 / 100))] ''AA:BB''
                       \<lparr>dt_year = 2024, dt_month = 5, dt_day = 17, dt_hour = 12, dt_minute = 0, dt_second = 0, dt_microsecond = 0\<rparr> init_db)) = Inr db'
            \<and> update_monthly_aggregates ''AA:BB'' \<lparr>dt_year = 2024, dt_month = 5, dt_day = 17, dt_hour = 12, dt_minute = 0, dt_second = 0, dt_microsecond = 0\<rparr> db' = Inr db')"
proof -
  have r: "reachable_db (snd (store_daily_reading [(''temp_c'', VFloat (2222 / 100))] ''AA:BB''
                       \<lparr>dt_year = 2024, dt_month = 5, dt_day = 17, dt_hour = 12, dt_minute = 0, dt_second = 0, dt_microsecond = 0\<rparr> init_db))"
    by (intro reachable_db.intros)
  then show ?thesis
    using recompute_idempotent_unique [of "snd (store_daily_reading [(''temp_c'', VFloat (2222 / 100))] ''AA:BB''
                       \<lparr>dt_year = 2024, dt_month = 5, dt_day = 17, dt_hour = 12, dt_minute = 0, dt_second = 0, dt_microsecond = 0\<rparr> init_db)" "''AA:BB''" "\<lparr>dt_year = 2024, dt_month = 5, dt_day = 17, dt_hour = 12, dt_minute = 0, dt_second = 0, dt_microsecond = 0\<rparr>"]
    by blast
qed

end
